theory Spec2Isabelle
  imports Main
begin

section \<open>Incident response automation: the embedded program\<close>

text \<open>
  The program is \<^verbatim>\<open>scripts/incident_response_automation.py\<close>. Its functions run
  external commands, post to a webhook and write to an SQLite table; here every such
  call reads its outcome from an explicit environment, and every effect is a field of
  an explicit state. A Python string is a \<^typ>\<open>string\<close>, one \<^typ>\<open>char\<close> for each
  character of the \<^verbatim>\<open>str\<close>.
\<close>

subsection \<open>Exceptions and outcomes of external calls\<close>

text \<open>
  The two exception classes the handlers tell apart: \<^verbatim>\<open>subprocess.TimeoutExpired\<close>
  and any other \<^verbatim>\<open>Exception\<close>. Each carries the text \<^verbatim>\<open>str(e)\<close> gives.
\<close>

datatype exn = TimeoutExpired string | Exception string

fun str_exn :: "exn \<Rightarrow> string" where
  "str_exn (TimeoutExpired m) = m"
| "str_exn (Exception m) = m"

text \<open>The result object of \<^verbatim>\<open>subprocess.run(..., capture_output=True, text=True)\<close>.\<close>

record completed_process =
  returncode :: int
  stdout :: string
  stderr :: string

text \<open>
  What the outside world answers while one service is processed: the outcome of running
  the check command and the recovery command, the error raised by the database (if
  any) when an incident is inserted, the error raised by \<^verbatim>\<open>requests.post\<close> (if any)
  for an alert of a given type, and the clock.
\<close>

record env =
  check_run :: "exn + completed_process"
  recovery_run :: "exn + completed_process"
  db_error :: "string option"
  post_error :: "string \<Rightarrow> string option"
  now :: nat

subsection \<open>Configuration tables\<close>

text \<open>
  \<^verbatim>\<open>SERVICES_TO_MONITOR\<close> and \<^verbatim>\<open>RECOVERY_COMMANDS\<close> are dictionaries; iteration follows
  insertion order, so they are association lists looked up with \<^const>\<open>map_of\<close>.
\<close>

record config =
  services_to_monitor :: "(string \<times> string) list"
  recovery_commands :: "(string \<times> string) list"

definition SERVICES_TO_MONITOR :: "(string \<times> string) list" where
  "SERVICES_TO_MONITOR =
     [(''nginx'', ''/usr/sbin/nginx -t''),
      (''postgresql'', ''pg_isready -h localhost''),
      (''redis'', ''redis-cli ping''),
      (''application'', ''curl -s http://localhost:8000/health'')]"

definition RECOVERY_COMMANDS :: "(string \<times> string) list" where
  "RECOVERY_COMMANDS =
     [(''nginx'', ''sudo systemctl restart nginx''),
      (''postgresql'', ''sudo systemctl restart postgresql''),
      (''redis'', ''sudo systemctl restart redis-server''),
      (''application'', ''sudo systemctl restart application'')]"

definition source_config :: config where
  "source_config =
     \<lparr>services_to_monitor = SERVICES_TO_MONITOR, recovery_commands = RECOVERY_COMMANDS\<rparr>"

subsection \<open>State\<close>

text \<open>
  A value of the \<^verbatim>\<open>service_status\<close> dictionary: \<^verbatim>\<open>None\<close>, \<^verbatim>\<open>"up"\<close> or \<^verbatim>\<open>"down"\<close>.
\<close>

datatype status = Unknown | Up | Down

text \<open>A row of the \<^verbatim>\<open>incidents\<close> table; a nullable column is an option.\<close>

record incident =
  incident_id :: nat
  service_name :: string
  incident_type :: string
  start_time :: "nat option"
  end_time :: "nat option"
  recovery_attempts :: "int option"
  recovery_successful :: "bool option"
  details :: string

text \<open>The attachment \<^verbatim>\<open>send_slack_alert\<close> posts. The title is an emoji, then text.\<close>

datatype emoji = Siren | Check_Mark | Warning | Information

record payload =
  color :: string
  title_emoji :: emoji
  title_text :: string
  text_field :: string
  time_field :: nat

text \<open>One constructor for each call of the logger, with the values it formats.\<close>

datatype log_record =
    Log_Failed_To_Log_Incident string
  | Log_Attempting_Recovery string
  | Log_Recovery_Successful string
  | Log_Recovery_Failed string
  | Log_Recovery_Timeout string
  | Log_Recovery_Error string string
  | Log_Error_Sending_Slack_Alert string
  | Log_Is_Now_Up string
  | Log_Is_Down string string

text \<open>
  The mutable world: the module-level dictionary, the table, and the calls made so far.
  \<^verbatim>\<open>alerts\<close> holds the arguments of every call of \<^verbatim>\<open>send_slack_alert\<close>, \<^verbatim>\<open>posts\<close>
  the payloads that \<^verbatim>\<open>requests.post\<close> accepted, \<^verbatim>\<open>probes\<close> every check command run,
  and \<^verbatim>\<open>recoveries\<close> every recovery command run, each with the value
  \<^verbatim>\<open>service_status.get(service_name)\<close> had when it was run.
\<close>

record state =
  service_status :: "string \<rightharpoonup> status"
  incidents :: "incident list"
  alerts :: "(string \<times> string \<times> string) list"
  posts :: "payload list"
  log :: "log_record list"
  probes :: "(string \<times> string) list"
  recoveries :: "(string \<times> string \<times> status) list"

text \<open>\<^verbatim>\<open>service_status.get(name)\<close>: a missing key reads as \<^verbatim>\<open>None\<close>.\<close>

definition status_get :: "state \<Rightarrow> string \<Rightarrow> status" where
  "status_get st name = (case service_status st name of None \<Rightarrow> Unknown | Some v \<Rightarrow> v)"

definition logger :: "log_record \<Rightarrow> state \<Rightarrow> state" where
  "logger r st = st\<lparr>log := log st @ [r]\<rparr>"

subsection \<open>String helpers\<close>

text \<open>\<^verbatim>\<open>str.isspace\<close> on the characters below 256.\<close>

definition py_isspace :: "char \<Rightarrow> bool" where
  "py_isspace c =
     (let n = (of_char c :: nat)
      in (9 \<le> n \<and> n \<le> 13) \<or> (28 \<le> n \<and> n \<le> 32) \<or> n = 133 \<or> n = 160)"

definition strip :: "string \<Rightarrow> string" where
  "strip s = rev (dropWhile py_isspace (rev (dropWhile py_isspace s)))"

text \<open>\<^verbatim>\<open>a or b\<close> on strings: the empty string is false.\<close>

definition py_or :: "string \<Rightarrow> string \<Rightarrow> string" where
  "py_or a b = (if a = [] then b else a)"

text \<open>\<^verbatim>\<open>str.upper\<close> on ASCII letters (the alert types are ASCII).\<close>

definition upper_char :: "char \<Rightarrow> char" where
  "upper_char c =
     (let n = (of_char c :: nat)
      in if 97 \<le> n \<and> n \<le> 122 then char_of (n - 32) else c)"

definition upper :: "string \<Rightarrow> string" where
  "upper s = map upper_char s"

subsection \<open>\<^verbatim>\<open>log_incident\<close>\<close>

text \<open>
  The \<^verbatim>\<open>try\<close> body: the INSERT gives the four listed columns; \<^verbatim>\<open>id\<close> is the
  AUTOINCREMENT key, \<^verbatim>\<open>start_time\<close> defaults to the current timestamp, and
  \<^verbatim>\<open>end_time\<close> and \<^verbatim>\<open>recovery_attempts\<close> have no default, so they are NULL.
\<close>

definition next_id :: "incident list \<Rightarrow> nat" where
  "next_id rows = Suc (fold max (map incident_id rows) 0)"

definition log_incident_body ::
  "env \<Rightarrow> string \<Rightarrow> string \<Rightarrow> string \<Rightarrow> state \<Rightarrow> exn + state" where
  "log_incident_body e name itype dtl st =
     (case db_error e of
        Some m \<Rightarrow> Inl (Exception m)
      | None \<Rightarrow>
          Inr (st\<lparr>incidents := incidents st @
                 [\<lparr>incident_id = next_id (incidents st),
                   service_name = name,
                   incident_type = itype,
                   start_time = Some (now e),
                   end_time = None,
                   recovery_attempts = None,
                   recovery_successful = Some False,
                   details = dtl\<rparr>]\<rparr>))"

definition log_incident :: "env \<Rightarrow> string \<Rightarrow> string \<Rightarrow> string \<Rightarrow> state \<Rightarrow> state" where
  "log_incident e name itype dtl st =
     (case log_incident_body e name itype dtl st of
        Inr st' \<Rightarrow> st'
      | Inl ex \<Rightarrow> logger (Log_Failed_To_Log_Incident (str_exn ex)) st)"

subsection \<open>\<^verbatim>\<open>check_service_health\<close>\<close>

definition check_service_health_body ::
  "env \<Rightarrow> string \<Rightarrow> string \<Rightarrow> exn + (bool \<times> string)" where
  "check_service_health_body e name check_command =
     (case check_run e of
        Inl ex \<Rightarrow> Inl ex
      | Inr result \<Rightarrow>
          if returncode result = 0 then Inr (True, ''OK'')
          else
            (let error_msg = py_or (stderr result) (py_or (stdout result) ''Unknown error'')
             in Inr (False, take 200 (strip error_msg))))"

definition check_service_health :: "env \<Rightarrow> string \<Rightarrow> string \<Rightarrow> bool \<times> string" where
  "check_service_health e name check_command =
     (case check_service_health_body e name check_command of
        Inr r \<Rightarrow> r
      | Inl (TimeoutExpired m) \<Rightarrow> (False, ''Health check timeout'')
      | Inl (Exception m) \<Rightarrow> (False, take 200 m))"

subsection \<open>\<^verbatim>\<open>attempt_recovery\<close>\<close>

definition attempt_recovery_body ::
  "env \<Rightarrow> string \<Rightarrow> string \<Rightarrow> state \<Rightarrow> exn + (bool \<times> state)" where
  "attempt_recovery_body e name recovery_command st =
     (let st1 = logger (Log_Attempting_Recovery name) st;
          st2 = st1\<lparr>recoveries :=
                      recoveries st1 @ [(name, recovery_command, status_get st1 name)]\<rparr>
      in case recovery_run e of
           Inl ex \<Rightarrow> Inl ex
         | Inr result \<Rightarrow>
             if returncode result = 0
             then Inr (True, logger (Log_Recovery_Successful name) st2)
             else Inr (False, logger (Log_Recovery_Failed name) st2))"

text \<open>
  An exception leaves the effects made before it: the first log line and the run of
  the command.
\<close>

definition attempt_recovery :: "env \<Rightarrow> string \<Rightarrow> string \<Rightarrow> state \<Rightarrow> bool \<times> state" where
  "attempt_recovery e name recovery_command st =
     (let st1 = logger (Log_Attempting_Recovery name) st;
          st2 = st1\<lparr>recoveries :=
                      recoveries st1 @ [(name, recovery_command, status_get st1 name)]\<rparr>
      in case attempt_recovery_body e name recovery_command st of
           Inr r \<Rightarrow> r
         | Inl (TimeoutExpired m) \<Rightarrow> (False, logger (Log_Recovery_Timeout name) st2)
         | Inl (Exception m) \<Rightarrow> (False, logger (Log_Recovery_Error name m) st2))"

subsection \<open>\<^verbatim>\<open>send_slack_alert\<close>\<close>

definition color_map :: "string \<Rightarrow> string" where
  "color_map alert_type =
     (if alert_type = ''down'' then ''#FF0000''
      else if alert_type = ''recovered'' then ''#00CC00''
      else if alert_type = ''recovery_failed'' then ''#FF6600''
      else ''#CCCCCC'')"

definition emoji_map :: "string \<Rightarrow> emoji" where
  "emoji_map alert_type =
     (if alert_type = ''down'' then Siren
      else if alert_type = ''recovered'' then Check_Mark
      else if alert_type = ''recovery_failed'' then Warning
      else Information)"

definition send_slack_alert_body ::
  "env \<Rightarrow> string \<Rightarrow> string \<Rightarrow> string \<Rightarrow> state \<Rightarrow> exn + state" where
  "send_slack_alert_body e name alert_type dtl st =
     (let p = \<lparr>color = color_map alert_type,
               title_emoji = emoji_map alert_type,
               title_text = '' '' @ name @ '': '' @ upper alert_type,
               text_field = dtl,
               time_field = now e\<rparr>
      in case post_error e alert_type of
           Some m \<Rightarrow> Inl (Exception m)
         | None \<Rightarrow> Inr (st\<lparr>posts := posts st @ [p]\<rparr>))"

definition send_slack_alert :: "env \<Rightarrow> string \<Rightarrow> string \<Rightarrow> string \<Rightarrow> state \<Rightarrow> state" where
  "send_slack_alert e name alert_type dtl st =
     (let st1 = st\<lparr>alerts := alerts st @ [(name, alert_type, dtl)]\<rparr>
      in case send_slack_alert_body e name alert_type dtl st1 of
           Inr st' \<Rightarrow> st'
         | Inl ex \<Rightarrow> logger (Log_Error_Sending_Slack_Alert (str_exn ex)) st1)"

subsection \<open>\<^verbatim>\<open>monitor_services\<close> and \<^verbatim>\<open>main\<close>\<close>

definition set_status :: "string \<Rightarrow> status \<Rightarrow> state \<Rightarrow> state" where
  "set_status name v st = st\<lparr>service_status := (service_status st)(name \<mapsto> v)\<rparr>"

text \<open>The body of the \<^verbatim>\<open>for\<close> loop, for one service.\<close>

definition monitor_one :: "config \<Rightarrow> env \<Rightarrow> string \<Rightarrow> string \<Rightarrow> state \<Rightarrow> state" where
  "monitor_one cfg e name check_command st0 =
     (let st = st0\<lparr>probes := probes st0 @ [(name, check_command)]\<rparr>;
          (is_healthy, message) = check_service_health e name check_command
      in if is_healthy then
           (let st1 = (if status_get st name = Down
                       then send_slack_alert e name ''recovered'' (name @ '' has recovered'')
                              (logger (Log_Is_Now_Up name) st)
                       else st)
            in set_status name Up st1)
         else
           (let st1 = (if status_get st name \<noteq> Down
                       then log_incident e name ''service_failure'' message
                              (send_slack_alert e name ''down'' (''Error: '' @ message)
                                 (logger (Log_Is_Down name message) st))
                       else st)
            in case map_of (recovery_commands cfg) name of
                 None \<Rightarrow> st1
               | Some recovery_command \<Rightarrow>
                   (let (success, st2) = attempt_recovery e name recovery_command st1
                    in if success
                       then set_status name Up
                              (send_slack_alert e name ''recovered'' ''Auto-recovery successful'' st2)
                       else set_status name Down
                              (send_slack_alert e name ''recovery_failed''
                                 ''Please investigate manually'' st2))))"

text \<open>One tick: the loop over the services, each with its own environment.\<close>

definition monitor_services :: "config \<Rightarrow> (string \<Rightarrow> env) \<Rightarrow> state \<Rightarrow> state" where
  "monitor_services cfg envt st =
     fold (\<lambda>(name, check_command). monitor_one cfg (envt name) name check_command)
          (services_to_monitor cfg) st"

text \<open>
  \<^verbatim>\<open>main\<close>: the table is created if absent (its rows are kept), every service gets the
  status \<^verbatim>\<open>None\<close>, and ticks follow one another until the process is interrupted;
  \<open>run_ticks\<close> is the state after the ticks of a finite prefix.
\<close>

definition initial_state :: "incident list \<Rightarrow> state" where
  "initial_state rows =
     \<lparr>service_status = Map.empty, incidents = rows, alerts = [], posts = [], log = [],
      probes = [], recoveries = []\<rparr>"

definition main_init :: "config \<Rightarrow> state \<Rightarrow> state" where
  "main_init cfg st = fold (\<lambda>(name, check_command). set_status name Unknown)
                           (services_to_monitor cfg) st"

definition run_ticks :: "config \<Rightarrow> (string \<Rightarrow> env) list \<Rightarrow> state \<Rightarrow> state" where
  "run_ticks cfg ticks st = fold (monitor_services cfg) ticks st"

definition main :: "config \<Rightarrow> incident list \<Rightarrow> (string \<Rightarrow> env) list \<Rightarrow> state" where
  "main cfg rows ticks = run_ticks cfg ticks (main_init cfg (initial_state rows))"


subsection \<open>Observations and sample environments\<close>

definition probe_healthy :: "env \<Rightarrow> string \<Rightarrow> string \<Rightarrow> bool" where
  "probe_healthy e name check_command = fst (check_service_health e name check_command)"

definition recovery_ok :: "env \<Rightarrow> bool" where
  "recovery_ok e = (case recovery_run e of Inr r \<Rightarrow> returncode r = 0 | Inl ex \<Rightarrow> False)"

definition alerts_of :: "string \<Rightarrow> state \<Rightarrow> (string \<times> string \<times> string) list" where
  "alerts_of n st = filter (\<lambda>a. fst a = n) (alerts st)"

definition count_alerts :: "string \<Rightarrow> string \<Rightarrow> state \<Rightarrow> nat" where
  "count_alerts n t st = length (filter (\<lambda>a. fst (snd a) = t) (alerts_of n st))"

definition recoveries_of :: "string \<Rightarrow> state \<Rightarrow> (string \<times> string \<times> status) list" where
  "recoveries_of n st = filter (\<lambda>r. fst r = n) (recoveries st)"

definition incidents_of :: "string \<Rightarrow> state \<Rightarrow> incident list" where
  "incidents_of n st = filter (\<lambda>i. service_name i = n) (incidents st)"

definition view ::
  "string \<Rightarrow> state \<Rightarrow> status \<times> (string \<times> string \<times> string) list \<times> (string \<times> string \<times> status) list" where
  "view n st = (status_get st n, alerts_of n st, recoveries_of n st)"

definition core ::
  "state \<Rightarrow> (string \<rightharpoonup> status) \<times> (string \<times> string \<times> string) list \<times> payload list
            \<times> (string \<times> string) list \<times> (string \<times> string \<times> status) list" where
  "core st = (service_status st, alerts st, posts st, probes st, recoveries st)"

definition db_always_ok :: "(string \<Rightarrow> env) \<Rightarrow> string \<Rightarrow> env" where
  "db_always_ok envt n = (envt n)\<lparr>db_error := None\<rparr>"

definition every_service :: "env \<Rightarrow> string \<Rightarrow> env" where
  "every_service e n = e"

definition exited :: "int \<Rightarrow> string \<Rightarrow> exn + completed_process" where
  "exited rc err = Inr \<lparr>returncode = rc, stdout = [], stderr = err\<rparr>"

definition no_post_error :: "string \<Rightarrow> string option" where
  "no_post_error t = None"

definition env_up :: env where
  "env_up = \<lparr>check_run = exited 0 [], recovery_run = exited 0 [], db_error = None,
              post_error = no_post_error, now = 0\<rparr>"

definition env_down_recovered :: env where
  "env_down_recovered =
     \<lparr>check_run = exited 1 ''connection refused'', recovery_run = exited 0 [],
      db_error = None, post_error = no_post_error, now = 0\<rparr>"

definition env_down_stuck :: env where
  "env_down_stuck =
     \<lparr>check_run = exited 1 ''connection refused'', recovery_run = exited 1 [],
      db_error = None, post_error = no_post_error, now = 0\<rparr>"

definition env_down_db_fails :: env where
  "env_down_db_fails =
     \<lparr>check_run = exited 1 ''connection refused'', recovery_run = exited 1 [],
      db_error = Some ''database is locked'', post_error = no_post_error, now = 0\<rparr>"

definition env_timeout :: env where
  "env_timeout =
     \<lparr>check_run = Inl (TimeoutExpired ''timed out after 5 seconds''),
      recovery_run = exited 0 [], db_error = None, post_error = no_post_error, now = 0\<rparr>"

definition web_config :: config where
  "web_config =
     \<lparr>services_to_monitor = [(''web'', ''curl -s http://localhost:8080/'')],
      recovery_commands = []\<rparr>"


definition always_post_error :: "string \<Rightarrow> string option" where
  "always_post_error t = Some ''connection timed out''"

definition env_all_fail :: env where
  "env_all_fail =
     \<lparr>check_run = Inl (Exception ''No such file or directory''),
      recovery_run = Inl (TimeoutExpired ''timed out after 10 seconds''),
      db_error = Some ''database is locked'', post_error = always_post_error, now = 0\<rparr>"

definition tick_nginx_breaks :: "string \<Rightarrow> env" where
  "tick_nginx_breaks n =
     (if n = ''nginx'' then env_all_fail
      else if n = ''postgresql'' then env_down_recovered
      else env_up)"

definition start :: "config \<Rightarrow> state" where
  "start cfg = main_init cfg (initial_state [])"

subsection \<open>A service's step on its own\<close>

text \<open>A row without its key, and the table without its keys.\<close>

definition row_data :: "incident \<Rightarrow> incident" where
  "row_data i = i\<lparr>incident_id := 0\<rparr>"

definition rows :: "state \<Rightarrow> incident list" where
  "rows st = map row_data (incidents st)"

text \<open>
  An empty world that holds the status of one service only, the step of that service
  run in it, and these steps for the services of a tick, each with the status the
  service has before the tick.
\<close>

definition lone :: "string \<Rightarrow> status \<Rightarrow> state" where
  "lone n s =
     \<lparr>service_status = [n \<mapsto> s], incidents = [], alerts = [], posts = [], log = [],
      probes = [], recoveries = []\<rparr>"

definition own_step :: "config \<Rightarrow> env \<Rightarrow> string \<Rightarrow> string \<Rightarrow> status \<Rightarrow> state" where
  "own_step cfg e n c s = monitor_one cfg e n c (lone n s)"

definition own_steps :: "config \<Rightarrow> (string \<Rightarrow> env) \<Rightarrow> state \<Rightarrow> state list" where
  "own_steps cfg envt st =
     map (\<lambda>(n, c). own_step cfg (envt n) n c (status_get st n)) (services_to_monitor cfg)"

section \<open>Properties\<close>

lemma logger_fields [simp]:
  "service_status (logger r st) = service_status st"
  "incidents (logger r st) = incidents st"
  "alerts (logger r st) = alerts st"
  "posts (logger r st) = posts st"
  "log (logger r st) = log st @ [r]"
  "probes (logger r st) = probes st"
  "recoveries (logger r st) = recoveries st"
  by (simp_all add: logger_def)

lemma set_status_fields [simp]:
  "service_status (set_status n v st) = (service_status st)(n \<mapsto> v)"
  "incidents (set_status n v st) = incidents st"
  "alerts (set_status n v st) = alerts st"
  "posts (set_status n v st) = posts st"
  "log (set_status n v st) = log st"
  "probes (set_status n v st) = probes st"
  "recoveries (set_status n v st) = recoveries st"
  by (simp_all add: set_status_def)

lemma send_slack_alert_fields [simp]:
  "service_status (send_slack_alert e n t d st) = service_status st"
  "incidents (send_slack_alert e n t d st) = incidents st"
  "alerts (send_slack_alert e n t d st) = alerts st @ [(n, t, d)]"
  "probes (send_slack_alert e n t d st) = probes st"
  "recoveries (send_slack_alert e n t d st) = recoveries st"
  by (simp_all add: send_slack_alert_def send_slack_alert_body_def Let_def split: option.split)

lemma log_incident_fields [simp]:
  "service_status (log_incident e n t d st) = service_status st"
  "alerts (log_incident e n t d st) = alerts st"
  "posts (log_incident e n t d st) = posts st"
  "probes (log_incident e n t d st) = probes st"
  "recoveries (log_incident e n t d st) = recoveries st"
  by (simp_all add: log_incident_def log_incident_body_def split: option.split)

lemma log_incident_incidents:
  "incidents (log_incident e n t d st) =
     incidents st @
     (case db_error e of
        Some m \<Rightarrow> []
      | None \<Rightarrow> [\<lparr>incident_id = next_id (incidents st), service_name = n, incident_type = t,
                   start_time = Some (now e), end_time = None, recovery_attempts = None,
                   recovery_successful = Some False, details = d\<rparr>])"
  by (simp add: log_incident_def log_incident_body_def split: option.split)

lemma status_get_simps [simp]:
  "status_get (logger r st) m = status_get st m"
  "status_get (send_slack_alert e n t d st) m = status_get st m"
  "status_get (log_incident e n t d st) m = status_get st m"
  "status_get (st\<lparr>probes := ps\<rparr>) m = status_get st m"
  "status_get (set_status n v st) m = (if m = n then v else status_get st m)"
  by (simp_all add: status_get_def)

lemma attempt_recovery_fst [simp]: "fst (attempt_recovery e n c st) = recovery_ok e"
  by (simp add: attempt_recovery_def attempt_recovery_body_def recovery_ok_def Let_def
           split: sum.split exn.split)

lemma attempt_recovery_fields [simp]:
  "service_status (snd (attempt_recovery e n c st)) = service_status st"
  "incidents (snd (attempt_recovery e n c st)) = incidents st"
  "alerts (snd (attempt_recovery e n c st)) = alerts st"
  "posts (snd (attempt_recovery e n c st)) = posts st"
  "probes (snd (attempt_recovery e n c st)) = probes st"
  "recoveries (snd (attempt_recovery e n c st)) = recoveries st @ [(n, c, status_get st n)]"
  "status_get (snd (attempt_recovery e n c st)) m = status_get st m"
  by (simp_all add: attempt_recovery_def attempt_recovery_body_def Let_def status_get_def
           split: sum.split exn.split)

lemmas monitor_one_unfold = monitor_one_def Let_def split_beta probe_healthy_def [symmetric]

lemma monitor_one_status:
  "status_get (monitor_one cfg e n c st) m =
     (if m \<noteq> n then status_get st m
      else if probe_healthy e n c then Up
      else case map_of (recovery_commands cfg) n of
             None \<Rightarrow> status_get st n
           | Some rc \<Rightarrow> if recovery_ok e then Up else Down)"
  by (simp add: monitor_one_unfold split: option.split)

lemma monitor_one_alerts:
  "alerts (monitor_one cfg e n c st) =
     alerts st @
     (if probe_healthy e n c
      then (if status_get st n = Down then [(n, ''recovered'', n @ '' has recovered'')] else [])
      else (if status_get st n \<noteq> Down
            then [(n, ''down'', ''Error: '' @ snd (check_service_health e n c))] else []) @
           (case map_of (recovery_commands cfg) n of
              None \<Rightarrow> []
            | Some rc \<Rightarrow>
                if recovery_ok e then [(n, ''recovered'', ''Auto-recovery successful'')]
                else [(n, ''recovery_failed'', ''Please investigate manually'')]))"
  by (simp add: monitor_one_unfold split: option.split)

lemma monitor_one_recoveries:
  "recoveries (monitor_one cfg e n c st) =
     recoveries st @
     (if probe_healthy e n c then []
      else case map_of (recovery_commands cfg) n of
             None \<Rightarrow> []
           | Some rc \<Rightarrow> [(n, rc, status_get st n)])"
  by (simp add: monitor_one_unfold split: option.split)

lemma monitor_one_probes: "probes (monitor_one cfg e n c st) = probes st @ [(n, c)]"
  by (simp add: monitor_one_unfold split: option.split)

lemma monitor_one_incidents:
  "incidents (monitor_one cfg e n c st) =
     incidents st @
     (if \<not> probe_healthy e n c \<and> status_get st n \<noteq> Down \<and> db_error e = None
      then [\<lparr>incident_id = next_id (incidents st), service_name = n,
              incident_type = ''service_failure'', start_time = Some (now e), end_time = None,
              recovery_attempts = None, recovery_successful = Some False,
              details = snd (check_service_health e n c)\<rparr>]
      else [])"
  by (simp add: monitor_one_unfold log_incident_incidents split: option.split)


lemma view_other_step:
  "m \<noteq> n \<Longrightarrow> view n (monitor_one cfg e m c st) = view n st"
  by (simp add: view_def alerts_of_def recoveries_of_def monitor_one_status monitor_one_alerts
        monitor_one_recoveries split: option.split)

lemma view_same_step:
  "view n st = view n st' \<Longrightarrow>
   view n (monitor_one cfg e n c st) = view n (monitor_one cfg e n c st')"
  by (simp add: view_def alerts_of_def recoveries_of_def monitor_one_status monitor_one_alerts
        monitor_one_recoveries split: option.split)

lemma view_fold_others:
  "n \<notin> fst ` set xs \<Longrightarrow>
   view n (fold (\<lambda>(name, check_command). monitor_one cfg (envt name) name check_command) xs st)
     = view n st"
proof (induction xs arbitrary: st)
  case Nil
  then show ?case by simp
next
  case (Cons x xs)
  obtain m c where x: "x = (m, c)" by (cases x)
  from Cons.prems x have "m \<noteq> n" and rest: "n \<notin> fst ` set xs" by auto
  then show ?case using Cons.IH [OF rest] x by (simp add: view_other_step)
qed

lemma view_fold_member:
  "distinct (map fst xs) \<Longrightarrow> (n, c) \<in> set xs \<Longrightarrow>
   view n (fold (\<lambda>(name, check_command). monitor_one cfg (envt name) name check_command) xs st)
     = view n (monitor_one cfg (envt n) n c st)"
proof (induction xs arbitrary: st)
  case Nil
  then show ?case by simp
next
  case (Cons x xs)
  obtain m d where x: "x = (m, d)" by (cases x)
  show ?case
  proof (cases "m = n")
    case True
    with Cons.prems x have "d = c" and "n \<notin> fst ` set xs"
      by (auto simp: image_iff)
    then show ?thesis using x True by (simp add: view_fold_others)
  next
    case False
    with Cons.prems x have mem: "(n, c) \<in> set xs" and dist: "distinct (map fst xs)" by auto
    have "view n (monitor_one cfg (envt m) m d st) = view n st"
      using False by (simp add: view_other_step)
    then have "view n (monitor_one cfg (envt n) n c (monitor_one cfg (envt m) m d st))
                 = view n (monitor_one cfg (envt n) n c st)"
      by (rule view_same_step)
    then show ?thesis using Cons.IH [OF dist mem] x by simp
  qed
qed

lemma view_tick_member:
  "distinct (map fst (services_to_monitor cfg)) \<Longrightarrow> (n, c) \<in> set (services_to_monitor cfg) \<Longrightarrow>
   view n (monitor_services cfg envt st) = view n (monitor_one cfg (envt n) n c st)"
  unfolding monitor_services_def by (rule view_fold_member)

lemma view_tick_others:
  "n \<notin> fst ` set (services_to_monitor cfg) \<Longrightarrow> view n (monitor_services cfg envt st) = view n st"
  unfolding monitor_services_def by (rule view_fold_others)


lemma start_source [simp]:
  "service_status (start source_config) =
     [''nginx'' \<mapsto> Unknown, ''postgresql'' \<mapsto> Unknown, ''redis'' \<mapsto> Unknown,
      ''application'' \<mapsto> Unknown]"
  "incidents (start source_config) = []"
  "alerts (start source_config) = []"
  "posts (start source_config) = []"
  "log (start source_config) = []"
  "probes (start source_config) = []"
  "recoveries (start source_config) = []"
  by (simp_all add: start_def main_init_def initial_state_def source_config_def
        SERVICES_TO_MONITOR_def set_status_def)

lemma status_get_start [simp]: "status_get (start source_config) n = Unknown"
  by (simp add: status_get_def)

lemma monitor_services_probes:
  "probes (monitor_services cfg envt st) = probes st @ services_to_monitor cfg"
proof -
  have "probes (fold (\<lambda>(name, check_command). monitor_one cfg (envt name) name check_command) xs st)
          = probes st @ xs" for xs
    by (induction xs arbitrary: st) (auto simp: monitor_one_probes)
  then show ?thesis by (simp add: monitor_services_def)
qed

text \<open>
  Claim C10. The processing step of one service changes no status entry but its own:
  the entry of every other service is the same after the step as before it, whatever
  the probe, the recovery command, the webhook and the database do.
\<close>

theorem monitor_one_frame:
  "m \<noteq> name \<Longrightarrow>
   service_status (monitor_one cfg e name check_command st) m = service_status st m"
  by (simp add: monitor_one_unfold split: option.split)

theorem monitor_one_frame_witness:
  "''redis'' \<noteq> ''nginx'' \<and>
   service_status (monitor_one source_config env_all_fail ''nginx'' ''/usr/sbin/nginx -t''
                     (start source_config)) ''redis'' = Some Unknown"
  using monitor_one_frame [of "''redis''" "''nginx''" source_config env_all_fail
          "''/usr/sbin/nginx -t''" "start source_config"]
  by simp

lemma check_service_health_cases:
  "check_service_health e n c =
     (case check_run e of
        Inl (TimeoutExpired m) \<Rightarrow> (False, ''Health check timeout'')
      | Inl (Exception m) \<Rightarrow> (False, take 200 m)
      | Inr r \<Rightarrow>
          if returncode r = 0 then (True, ''OK'')
          else (False, take 200 (strip (py_or (stderr r) (py_or (stdout r) ''Unknown error'')))))"
  by (simp add: check_service_health_def check_service_health_body_def
           split: sum.split exn.split)

text \<open>
  Claim C6, as the code has it. The probe returns a pair for every outcome of the check
  command: \<open>(True, ''OK'')\<close> exactly when the command exits with code 0; on a timeout
  \<open>(False, ''Health check timeout'')\<close> (the claim has the detail \<open>''timeout''\<close>); on
  any other exception the first 200 characters of its text; on a non-zero exit the
  first 200 characters of the stripped error output. The detail never exceeds 200
  characters.
\<close>

theorem check_service_health_contract:
  "fst (check_service_health e n c)
     = (case check_run e of Inr r \<Rightarrow> returncode r = 0 | Inl ex \<Rightarrow> False) \<and>
   (fst (check_service_health e n c) \<longrightarrow> snd (check_service_health e n c) = ''OK'') \<and>
   check_service_health (e\<lparr>check_run := Inl (TimeoutExpired m)\<rparr>) n c
     = (False, ''Health check timeout'') \<and>
   check_service_health (e\<lparr>check_run := Inl (Exception m)\<rparr>) n c = (False, take 200 m) \<and>
   (rc \<noteq> 0 \<longrightarrow>
      check_service_health
        (e\<lparr>check_run := Inr \<lparr>returncode = rc, stdout = out, stderr = err\<rparr>\<rparr>) n c
        = (False, take 200 (strip (py_or err (py_or out ''Unknown error''))))) \<and>
   length (snd (check_service_health e n c)) \<le> 200"
  by (simp add: check_service_health_cases split: sum.split exn.split)

theorem check_service_health_contract_witness:
  "fst (check_service_health env_up ''nginx'' ''/usr/sbin/nginx -t'') \<and>
   snd (check_service_health env_up ''nginx'' ''/usr/sbin/nginx -t'') = ''OK'' \<and>
   (1::int) \<noteq> 0 \<and>
   check_service_health
     (env_up\<lparr>check_run := Inr \<lparr>returncode = 1, stdout = ''down'', stderr = []\<rparr>\<rparr>)
     ''nginx'' ''/usr/sbin/nginx -t'' = (False, ''down'')"
proof -
  have h: "fst (check_service_health env_up ''nginx'' ''/usr/sbin/nginx -t'')"
    by (simp add: check_service_health_cases env_up_def exited_def)
  have s: "strip (py_or [] (py_or ''down'' ''Unknown error'')) = ''down''"
    by (simp add: strip_def py_or_def py_isspace_def)
  from check_service_health_contract [where e = env_up and n = "''nginx''"
         and c = "''/usr/sbin/nginx -t''" and rc = 1 and out = "''down''" and err = "[]"] h s
  show ?thesis by simp
qed

theorem check_service_health_timeout_counterexample:
  "check_service_health env_timeout ''nginx'' ''/usr/sbin/nginx -t'' \<noteq> (False, ''timeout'')"
  by (simp add: check_service_health_cases env_timeout_def)


subsection \<open>The incident table only grows\<close>

lemma fold_appends_rows:
  assumes step: "\<And>x st. \<exists>new. incidents (f x st) = incidents st @ new \<and> (\<forall>i\<in>set new. P i)"
  shows "\<exists>new. incidents (fold f xs st) = incidents st @ new \<and> (\<forall>i\<in>set new. P i)"
proof (induction xs arbitrary: st)
  case Nil
  then show ?case by simp
next
  case (Cons x xs)
  from step obtain new1 where
    n1: "incidents (f x st) = incidents st @ new1" "\<forall>i\<in>set new1. P i" by blast
  from Cons.IH obtain new2 where
    n2: "incidents (fold f xs (f x st)) = incidents (f x st) @ new2" "\<forall>i\<in>set new2. P i"
    by blast
  from n1 n2 have "incidents (fold f (x # xs) st) = incidents st @ (new1 @ new2)"
    and "\<forall>i\<in>set (new1 @ new2). P i" by auto
  then show ?case by blast
qed

lemma monitor_one_rows:
  "\<exists>new. incidents (monitor_one cfg e n c st) = incidents st @ new \<and>
     (\<forall>i\<in>set new. end_time i = None \<and> recovery_attempts i = None \<and>
                    recovery_successful i = Some False)"
  by (simp add: monitor_one_incidents)

lemma monitor_services_rows:
  "\<exists>new. incidents (monitor_services cfg envt st) = incidents st @ new \<and>
     (\<forall>i\<in>set new. end_time i = None \<and> recovery_attempts i = None \<and>
                    recovery_successful i = Some False)"
  unfolding monitor_services_def
  by (rule fold_appends_rows) (simp add: split_beta monitor_one_rows)

lemma run_ticks_rows:
  "\<exists>new. incidents (run_ticks cfg ticks st) = incidents st @ new \<and>
     (\<forall>i\<in>set new. end_time i = None \<and> recovery_attempts i = None \<and>
                    recovery_successful i = Some False)"
  unfolding run_ticks_def
  by (rule fold_appends_rows) (rule monitor_services_rows)

subsection \<open>The sample environments\<close>

lemma sample_probes [simp]:
  "probe_healthy env_up n c"
  "\<not> probe_healthy env_down_stuck n c"
  "\<not> probe_healthy env_down_recovered n c"
  "\<not> probe_healthy env_down_db_fails n c"
  "\<not> probe_healthy env_all_fail n c"
  "\<not> probe_healthy env_timeout n c"
  by (simp_all add: probe_healthy_def check_service_health_cases env_up_def env_down_stuck_def
        env_down_recovered_def env_down_db_fails_def env_all_fail_def env_timeout_def exited_def)

lemma sample_recoveries [simp]:
  "\<not> recovery_ok env_down_stuck"
  "recovery_ok env_down_recovered"
  "\<not> recovery_ok env_down_db_fails"
  "\<not> recovery_ok env_all_fail"
  by (simp_all add: recovery_ok_def env_down_stuck_def env_down_recovered_def
        env_down_db_fails_def env_all_fail_def exited_def)

lemma sample_details [simp]:
  "snd (check_service_health env_down_stuck n c) = ''connection refused''"
  "snd (check_service_health env_down_recovered n c) = ''connection refused''"
  "snd (check_service_health env_down_db_fails n c) = ''connection refused''"
  by (simp_all add: check_service_health_cases env_down_stuck_def env_down_recovered_def
        env_down_db_fails_def exited_def strip_def py_or_def py_isspace_def)

lemma sample_db [simp]:
  "db_error env_up = None"
  "db_error env_down_stuck = None"
  "db_error env_down_recovered = None"
  "db_error env_down_db_fails = Some ''database is locked''"
  "db_error env_all_fail = Some ''database is locked''"
  "now env_up = 0" "now env_down_stuck = 0" "now env_down_recovered = 0"
  by (simp_all add: env_up_def env_down_stuck_def env_down_recovered_def
        env_down_db_fails_def env_all_fail_def)

lemma source_tick:
  "monitor_services source_config envt st =
     monitor_one source_config (envt ''application'') ''application''
       ''curl -s http://localhost:8000/health''
       (monitor_one source_config (envt ''redis'') ''redis'' ''redis-cli ping''
          (monitor_one source_config (envt ''postgresql'') ''postgresql''
             ''pg_isready -h localhost''
             (monitor_one source_config (envt ''nginx'') ''nginx'' ''/usr/sbin/nginx -t'' st)))"
  by (simp add: monitor_services_def source_config_def SERVICES_TO_MONITOR_def)

lemma source_recovery [simp]:
  "map_of (recovery_commands source_config) ''nginx'' = Some ''sudo systemctl restart nginx''"
  "map_of (recovery_commands source_config) ''postgresql''
     = Some ''sudo systemctl restart postgresql''"
  "map_of (recovery_commands source_config) ''redis''
     = Some ''sudo systemctl restart redis-server''"
  "map_of (recovery_commands source_config) ''application''
     = Some ''sudo systemctl restart application''"
  by (simp_all add: source_config_def RECOVERY_COMMANDS_def)

lemmas eval_step = monitor_one_status monitor_one_alerts monitor_one_recoveries
  monitor_one_incidents monitor_one_probes every_service_def

lemma map_all_equal: "\<forall>i\<in>set xs. f i = v \<Longrightarrow> map f xs = replicate (length xs) v"
  by (induction xs) auto

lemma main_start: "main cfg [] ticks = run_ticks cfg ticks (start cfg)"
  by (simp add: main_def start_def)

text \<open>
  Claim C7, as the code has it. Every row the program inserts has a null end time and
  the recovery outcome \<open>False\<close> (the claim has it null), and over any run the table is
  the old table followed by the new rows: no row is changed after its insertion, and
  none is ever closed.
\<close>

theorem incidents_append_only:
  "\<exists>new. incidents (run_ticks cfg ticks st) = incidents st @ new \<and>
     (\<forall>i\<in>set new. end_time i = None \<and> recovery_successful i = Some False)"
  using run_ticks_rows [of cfg ticks st] by blast

theorem incidents_append_only_witness:
  "map end_time
     (incidents (run_ticks source_config [every_service env_down_stuck] (start source_config)))
     = [None, None, None, None] \<and>
   map recovery_successful
     (incidents (run_ticks source_config [every_service env_down_stuck] (start source_config)))
     = [Some False, Some False, Some False, Some False]"
proof -
  let ?S = "run_ticks source_config [every_service env_down_stuck] (start source_config)"
  from incidents_append_only [of source_config "[every_service env_down_stuck]"
         "start source_config"]
  have all: "\<forall>i\<in>set (incidents ?S). end_time i = None \<and> recovery_successful i = Some False"
    by auto
  have len: "length (incidents ?S) = 4"
    by (simp add: run_ticks_def source_tick eval_step)
  from all have "map end_time (incidents ?S) = replicate (length (incidents ?S)) None"
    by (intro map_all_equal) blast
  moreover from all
  have "map recovery_successful (incidents ?S) = replicate (length (incidents ?S)) (Some False)"
    by (intro map_all_equal) blast
  ultimately show ?thesis by (simp add: len numeral_eq_Suc)
qed

theorem incident_outcome_counterexample:
  "map recovery_successful
     (incidents (monitor_one source_config env_down_stuck ''nginx'' ''/usr/sbin/nginx -t''
                   (start source_config)))
     = [Some False]"
  by (simp add: eval_step)

text \<open>
  Claim C3, as the code has it. The program never writes the attempt count: a step that
  runs the recovery command leaves every row already in the table as it is, and if the
  attempt count of every row is null before a run then it is null in every row after
  it, however many recovery commands the run invokes.
\<close>

theorem recovery_attempts_never_written:
  "(\<not> probe_healthy e n c \<longrightarrow> map_of (recovery_commands cfg) n = Some rc \<longrightarrow>
      recoveries (monitor_one cfg e n c st) = recoveries st @ [(n, rc, status_get st n)] \<and>
      take (length (incidents st)) (incidents (monitor_one cfg e n c st)) = incidents st) \<and>
   ((\<forall>i\<in>set (incidents st). recovery_attempts i = None) \<longrightarrow>
    (\<forall>i\<in>set (incidents (run_ticks cfg ticks st)). recovery_attempts i = None))"
proof -
  from run_ticks_rows [of cfg ticks st] obtain new where
    "incidents (run_ticks cfg ticks st) = incidents st @ new"
    "\<forall>i\<in>set new. recovery_attempts i = None" by blast
  then have "(\<forall>i\<in>set (incidents st). recovery_attempts i = None) \<longrightarrow>
    (\<forall>i\<in>set (incidents (run_ticks cfg ticks st)). recovery_attempts i = None)" by auto
  then show ?thesis by (simp add: monitor_one_recoveries monitor_one_incidents)
qed

theorem recovery_attempts_never_written_witness:
  "\<not> probe_healthy env_down_stuck ''nginx'' ''/usr/sbin/nginx -t'' \<and>
   map_of (recovery_commands source_config) ''nginx'' = Some ''sudo systemctl restart nginx'' \<and>
   map recovery_attempts
     (incidents (monitor_services source_config (every_service env_down_stuck)
                   (start source_config))) = [None, None, None, None] \<and>
   recoveries
     (monitor_one source_config env_down_stuck ''nginx'' ''/usr/sbin/nginx -t''
        (monitor_services source_config (every_service env_down_stuck) (start source_config)))
     = recoveries (monitor_services source_config (every_service env_down_stuck)
                     (start source_config))
       @ [(''nginx'', ''sudo systemctl restart nginx'', Down)] \<and>
   map recovery_attempts
     (incidents
        (run_ticks source_config [every_service env_down_stuck]
           (monitor_services source_config (every_service env_down_stuck)
              (start source_config)))) = [None, None, None, None]"
proof -
  let ?S1 = "monitor_services source_config (every_service env_down_stuck) (start source_config)"
  let ?S2 = "run_ticks source_config [every_service env_down_stuck] ?S1"
  have rows1: "map recovery_attempts (incidents ?S1) = [None, None, None, None]"
    by (simp add: source_tick eval_step)
  have "\<forall>i\<in>set (incidents ?S1).
          recovery_attempts i \<in> set (map recovery_attempts (incidents ?S1))" by simp
  then have hyp: "\<forall>i\<in>set (incidents ?S1). recovery_attempts i = None"
    unfolding rows1 by simp
  have down: "status_get ?S1 ''nginx'' = Down"
    by (simp add: source_tick eval_step)
  have len2: "length (incidents ?S2) = 4"
    by (simp add: run_ticks_def source_tick eval_step)
  note inst = recovery_attempts_never_written [where e = env_down_stuck and n = "''nginx''"
      and c = "''/usr/sbin/nginx -t''" and cfg = source_config
      and rc = "''sudo systemctl restart nginx''" and st = ?S1
      and ticks = "[every_service env_down_stuck]"]
  from inst hyp have "\<forall>i\<in>set (incidents ?S2). recovery_attempts i = None" by blast
  then have "map recovery_attempts (incidents ?S2) = replicate (length (incidents ?S2)) None"
    by (rule map_all_equal)
  then have rows2: "map recovery_attempts (incidents ?S2) = [None, None, None, None]"
    by (simp add: len2 numeral_eq_Suc)
  from inst have "recoveries (monitor_one source_config env_down_stuck ''nginx''
        ''/usr/sbin/nginx -t'' ?S1)
      = recoveries ?S1 @ [(''nginx'', ''sudo systemctl restart nginx'', Down)]"
    by (simp add: down)
  with rows1 rows2 show ?thesis by simp
qed

theorem recovery_attempts_counterexample:
  "length (recoveries_of ''nginx''
     (run_ticks source_config [every_service env_down_stuck, every_service env_down_stuck]
        (start source_config))) = 2 \<and>
   map recovery_attempts
     (incidents_of ''nginx''
        (run_ticks source_config [every_service env_down_stuck, every_service env_down_stuck]
           (start source_config))) = [None]"
  by (simp add: run_ticks_def source_tick eval_step incidents_of_def recoveries_of_def)


subsection \<open>The start state of any configuration\<close>

lemma fold_set_status_fields:
  "incidents (fold (\<lambda>(name, check_command). set_status name Unknown) xs st) = incidents st
   \<and> alerts (fold (\<lambda>(name, check_command). set_status name Unknown) xs st) = alerts st
   \<and> posts (fold (\<lambda>(name, check_command). set_status name Unknown) xs st) = posts st
   \<and> log (fold (\<lambda>(name, check_command). set_status name Unknown) xs st) = log st
   \<and> probes (fold (\<lambda>(name, check_command). set_status name Unknown) xs st) = probes st
   \<and> recoveries (fold (\<lambda>(name, check_command). set_status name Unknown) xs st)
       = recoveries st"
  by (induction xs arbitrary: st) (auto simp: split_beta)

lemma main_init_fields:
  "incidents (main_init cfg st) = incidents st"
  "alerts (main_init cfg st) = alerts st"
  "posts (main_init cfg st) = posts st"
  "log (main_init cfg st) = log st"
  "probes (main_init cfg st) = probes st"
  "recoveries (main_init cfg st) = recoveries st"
  using fold_set_status_fields [of "services_to_monitor cfg" st]
  by (simp_all add: main_init_def)

lemma fold_set_status_unknown:
  "status_get st n = Unknown \<Longrightarrow>
   status_get (fold (\<lambda>(name, check_command). set_status name Unknown) xs st) n = Unknown"
  by (induction xs arbitrary: st) (auto simp: split_beta)

lemma main_init_status:
  "status_get st n = Unknown \<Longrightarrow> status_get (main_init cfg st) n = Unknown"
  by (simp add: main_init_def fold_set_status_unknown)

lemma start_any [simp]:
  "status_get (start cfg) n = Unknown"
  "incidents (start cfg) = []"
  "alerts (start cfg) = []"
  "probes (start cfg) = []"
  "recoveries (start cfg) = []"
proof -
  have "status_get (initial_state []) n = Unknown"
    by (simp add: initial_state_def status_get_def)
  then show "status_get (start cfg) n = Unknown"
    by (simp add: start_def main_init_status)
qed (simp_all add: start_def main_init_fields initial_state_def)

lemma web_tick:
  "monitor_services web_config envt st =
     monitor_one web_config (envt ''web'') ''web'' ''curl -s http://localhost:8080/'' st"
  by (simp add: monitor_services_def web_config_def)

lemma web_recovery [simp]: "map_of (recovery_commands web_config) n = None"
  by (simp add: web_config_def)

text \<open>
  Claim C4 at a service with no recovery command, \<open>''web''\<close>: its first probe fails, and
  after the tick that ran the probe its status is still \<^verbatim>\<open>None\<close>, neither up nor down,
  because the branch without a recovery command assigns no status.
\<close>

theorem status_unknown_after_first_probe:
  "probes (main web_config [] [every_service env_down_stuck])
     = [(''web'', ''curl -s http://localhost:8080/'')] \<and>
   status_get (main web_config [] [every_service env_down_stuck]) ''web'' = Unknown"
  by (simp add: main_start run_ticks_def web_tick eval_step)

lemma no_recovery_command_repeats_down_alert:
  "count_alerts ''web'' ''down''
     (main web_config []
        [every_service env_down_stuck, every_service env_down_stuck, every_service env_down_stuck])
     = 3"
  by (simp add: main_start run_ticks_def web_tick eval_step count_alerts_def alerts_of_def)

lemma status_known_with_recovery_command:
  "map_of (recovery_commands cfg) n = Some rc \<Longrightarrow>
   status_get (monitor_one cfg e n c st) n \<in> {Up, Down}"
  by (simp add: monitor_one_status)


subsection \<open>What a tick does to one service\<close>

lemma tick_on_member:
  assumes "distinct (map fst (services_to_monitor cfg))"
    and "(n, c) \<in> set (services_to_monitor cfg)"
  shows "status_get (monitor_services cfg envt st) n
           = status_get (monitor_one cfg (envt n) n c st) n"
    and "alerts_of n (monitor_services cfg envt st)
           = alerts_of n (monitor_one cfg (envt n) n c st)"
    and "recoveries_of n (monitor_services cfg envt st)
           = recoveries_of n (monitor_one cfg (envt n) n c st)"
    and "count_alerts n t (monitor_services cfg envt st)
           = count_alerts n t (monitor_one cfg (envt n) n c st)"
  using view_tick_member [OF assms, of envt st] by (simp_all add: view_def count_alerts_def)

lemma incidents_of_other_step:
  "m \<noteq> n \<Longrightarrow> incidents_of n (monitor_one cfg e m c st) = incidents_of n st"
  by (simp add: incidents_of_def monitor_one_incidents)

lemma incidents_of_fold_others:
  "n \<notin> fst ` set xs \<Longrightarrow>
   incidents_of n
     (fold (\<lambda>(name, check_command). monitor_one cfg (envt name) name check_command) xs st)
     = incidents_of n st"
proof (induction xs arbitrary: st)
  case Nil
  then show ?case by simp
next
  case (Cons x xs)
  obtain m d where x: "x = (m, d)" by (cases x)
  from Cons.prems x have "m \<noteq> n" and rest: "n \<notin> fst ` set xs" by auto
  then show ?case using Cons.IH [OF rest] x by (simp add: incidents_of_other_step)
qed

lemma incidents_of_fold_down:
  "distinct (map fst xs) \<Longrightarrow> status_get st n = Down \<Longrightarrow>
   incidents_of n
     (fold (\<lambda>(name, check_command). monitor_one cfg (envt name) name check_command) xs st)
     = incidents_of n st"
proof (induction xs arbitrary: st)
  case Nil
  then show ?case by simp
next
  case (Cons x xs)
  obtain m d where x: "x = (m, d)" by (cases x)
  show ?case
  proof (cases "m = n")
    case True
    with Cons.prems x have rest: "n \<notin> fst ` set xs" by (auto simp: image_iff)
    have "incidents (monitor_one cfg (envt n) n d st) = incidents st"
      using Cons.prems(2) by (simp add: monitor_one_incidents)
    then have "incidents_of n (monitor_one cfg (envt n) n d st) = incidents_of n st"
      by (simp add: incidents_of_def)
    then show ?thesis using x True by (simp add: incidents_of_fold_others [OF rest])
  next
    case False
    from Cons.prems x have dist: "distinct (map fst xs)" by simp
    have down: "status_get (monitor_one cfg (envt m) m d st) n = Down"
      using False Cons.prems(2) by (simp add: monitor_one_status)
    show ?thesis using Cons.IH [OF dist down] x False
      by (simp add: incidents_of_other_step)
  qed
qed

text \<open>
  Claim C2, as the code has it. Over a tick that takes a service from \<^verbatim>\<open>"down"\<close> to
  \<^verbatim>\<open>"up"\<close>, by a healthy probe or by a successful recovery command, exactly one
  \<open>recovered\<close> alert is emitted for it, and the rows of the incident table for that
  service are the same after the tick as before: no incident is closed, no end time
  or outcome is written.
\<close>

theorem down_up_transition:
  assumes "distinct (map fst (services_to_monitor cfg))"
    and "(n, c) \<in> set (services_to_monitor cfg)"
    and "status_get st n = Down"
    and "status_get (monitor_services cfg envt st) n = Up"
  shows "count_alerts n ''recovered'' (monitor_services cfg envt st)
           = count_alerts n ''recovered'' st + 1 \<and>
         incidents_of n (monitor_services cfg envt st) = incidents_of n st"
proof -
  have up: "status_get (monitor_one cfg (envt n) n c st) n = Up"
    using assms(4) tick_on_member(1) [OF assms(1,2)] by simp
  have "count_alerts n ''recovered'' (monitor_one cfg (envt n) n c st)
          = count_alerts n ''recovered'' st + 1"
    using up assms(3)
    by (auto simp: count_alerts_def alerts_of_def monitor_one_alerts monitor_one_status
          split: option.splits if_splits)
  moreover have "incidents_of n (monitor_services cfg envt st) = incidents_of n st"
    unfolding monitor_services_def by (rule incidents_of_fold_down [OF assms(1,3)])
  ultimately show ?thesis using tick_on_member(4) [OF assms(1,2)] by simp
qed

lemma source_distinct: "distinct (map fst (services_to_monitor source_config))"
  by (simp add: source_config_def SERVICES_TO_MONITOR_def)

lemma source_nginx: "(''nginx'', ''/usr/sbin/nginx -t'') \<in> set (services_to_monitor source_config)"
  by (simp add: source_config_def SERVICES_TO_MONITOR_def)

theorem down_up_transition_witness:
  "distinct (map fst (services_to_monitor source_config)) \<and>
   (''nginx'', ''/usr/sbin/nginx -t'') \<in> set (services_to_monitor source_config) \<and>
   status_get (monitor_services source_config (every_service env_down_stuck)
                 (start source_config)) ''nginx'' = Down \<and>
   status_get (monitor_services source_config (every_service env_up)
                 (monitor_services source_config (every_service env_down_stuck)
                    (start source_config))) ''nginx'' = Up \<and>
   count_alerts ''nginx'' ''recovered''
     (monitor_services source_config (every_service env_up)
        (monitor_services source_config (every_service env_down_stuck)
           (start source_config))) = 1 \<and>
   length (incidents_of ''nginx''
     (monitor_services source_config (every_service env_up)
        (monitor_services source_config (every_service env_down_stuck)
           (start source_config)))) = 1"
proof -
  let ?S1 = "monitor_services source_config (every_service env_down_stuck) (start source_config)"
  have down: "status_get ?S1 ''nginx'' = Down"
    by (simp add: source_tick eval_step)
  have up: "status_get (monitor_services source_config (every_service env_up) ?S1) ''nginx'' = Up"
    by (simp add: source_tick eval_step)
  have before: "count_alerts ''nginx'' ''recovered'' ?S1 = 0"
    "length (incidents_of ''nginx'' ?S1) = 1"
    by (simp_all add: source_tick eval_step count_alerts_def alerts_of_def incidents_of_def)
  from down_up_transition [OF source_distinct source_nginx down up] before
  show ?thesis using source_distinct source_nginx down up by simp
qed

theorem incident_not_closed_counterexample:
  "status_get (monitor_services source_config (every_service env_down_stuck)
                 (start source_config)) ''nginx'' = Down \<and>
   status_get (monitor_services source_config (every_service env_up)
                 (monitor_services source_config (every_service env_down_stuck)
                    (start source_config))) ''nginx'' = Up \<and>
   map end_time (incidents_of ''nginx''
     (monitor_services source_config (every_service env_up)
        (monitor_services source_config (every_service env_down_stuck)
           (start source_config)))) = [None] \<and>
   map recovery_successful (incidents_of ''nginx''
     (monitor_services source_config (every_service env_up)
        (monitor_services source_config (every_service env_down_stuck)
           (start source_config)))) = [Some False]"
  by (simp add: source_tick eval_step incidents_of_def)


text \<open>
  Claim C5, as the code has it. In one tick the recovery command of a service is run at
  most once, and only when the probe of that tick was unhealthy and a command is
  configured; the status the dictionary holds when the command is run is the status
  from before the tick, so on a newly failed service it is still \<^verbatim>\<open>None\<close> or
  \<^verbatim>\<open>"up"\<close>, and \<^verbatim>\<open>"down"\<close> only if the service was already down. A name that is
  not monitored has no recovery run.
\<close>

theorem recovery_once_per_tick:
  "(distinct (map fst (services_to_monitor cfg)) \<longrightarrow>
    (n, c) \<in> set (services_to_monitor cfg) \<longrightarrow>
    recoveries_of n (monitor_services cfg envt st) =
      recoveries_of n st @
      (if probe_healthy (envt n) n c then []
       else case map_of (recovery_commands cfg) n of
              None \<Rightarrow> []
            | Some rc \<Rightarrow> [(n, rc, status_get st n)])) \<and>
   (m \<notin> fst ` set (services_to_monitor cfg) \<longrightarrow>
    recoveries_of m (monitor_services cfg envt st) = recoveries_of m st)"
proof -
  have "recoveries_of n (monitor_one cfg (envt n) n c st) =
      recoveries_of n st @
      (if probe_healthy (envt n) n c then []
       else case map_of (recovery_commands cfg) n of
              None \<Rightarrow> []
            | Some rc \<Rightarrow> [(n, rc, status_get st n)])"
    by (simp add: recoveries_of_def monitor_one_recoveries split: option.split)
  moreover have "m \<notin> fst ` set (services_to_monitor cfg) \<longrightarrow>
      recoveries_of m (monitor_services cfg envt st) = recoveries_of m st"
    using view_tick_others [of m cfg envt st] by (simp add: view_def)
  ultimately show ?thesis by (simp add: tick_on_member(3))
qed

theorem recovery_once_per_tick_witness:
  "distinct (map fst (services_to_monitor source_config)) \<and>
   (''nginx'', ''/usr/sbin/nginx -t'') \<in> set (services_to_monitor source_config) \<and>
   ''web'' \<notin> fst ` set (services_to_monitor source_config) \<and>
   recoveries_of ''nginx''
     (monitor_services source_config (every_service env_down_stuck)
        (monitor_services source_config (every_service env_down_stuck) (start source_config)))
     = [(''nginx'', ''sudo systemctl restart nginx'', Unknown),
        (''nginx'', ''sudo systemctl restart nginx'', Down)] \<and>
   recoveries_of ''web''
     (monitor_services source_config (every_service env_down_stuck) (start source_config)) = []"
proof -
  let ?S1 = "monitor_services source_config (every_service env_down_stuck) (start source_config)"
  have web: "''web'' \<notin> fst ` set (services_to_monitor source_config)"
    by (simp add: source_config_def SERVICES_TO_MONITOR_def)
  have first: "recoveries_of ''nginx'' ?S1
                 = [(''nginx'', ''sudo systemctl restart nginx'', Unknown)]"
    "status_get ?S1 ''nginx'' = Down"
    by (simp_all add: source_tick eval_step recoveries_of_def)
  have none: "recoveries_of ''web'' (start source_config) = []"
    by (simp add: recoveries_of_def)
  from recovery_once_per_tick [where cfg = source_config and n = "''nginx''"
      and c = "''/usr/sbin/nginx -t''" and envt = "every_service env_down_stuck" and st = ?S1
      and m = "''nginx''"]
  have two: "recoveries_of ''nginx''
      (monitor_services source_config (every_service env_down_stuck) ?S1)
      = [(''nginx'', ''sudo systemctl restart nginx'', Unknown),
         (''nginx'', ''sudo systemctl restart nginx'', Down)]"
    using source_distinct source_nginx first by (simp add: every_service_def)
  from recovery_once_per_tick [where cfg = source_config and n = "''nginx''"
      and c = "''/usr/sbin/nginx -t''" and envt = "every_service env_down_stuck"
      and st = "start source_config" and m = "''web''"]
  have "recoveries_of ''web'' ?S1 = []"
    using web none by simp
  with two web source_distinct source_nginx show ?thesis by simp
qed

theorem recovery_while_unknown_counterexample:
  "recoveries_of ''nginx''
     (monitor_services source_config (every_service env_down_stuck) (start source_config))
     = [(''nginx'', ''sudo systemctl restart nginx'', Unknown)]"
  by (simp add: source_tick eval_step recoveries_of_def)

subsection \<open>Alert suppression while a service stays down\<close>

lemma tick_down_stuck:
  assumes "distinct (map fst (services_to_monitor cfg))"
    and "(n, c) \<in> set (services_to_monitor cfg)"
    and "map_of (recovery_commands cfg) n = Some rc"
    and "\<not> probe_healthy (t n) n c" and "\<not> recovery_ok (t n)"
  shows "count_alerts n ''down'' (monitor_services cfg t st)
           = count_alerts n ''down'' st + (if status_get st n = Down then 0 else 1)"
    and "status_get (monitor_services cfg t st) n = Down"
  unfolding tick_on_member(1,4) [OF assms(1,2)]
  using assms(3-5)
  by (simp_all add: count_alerts_def alerts_of_def monitor_one_alerts monitor_one_status)

text \<open>
  Claim C1, as the code has it. For a monitored service with a recovery command, over
  any run of ticks in each of which its probe is unhealthy and its recovery command
  fails, at most one \<open>down\<close> alert is emitted for it: one if it was not down before,
  none if it was; and after the first such tick its status is \<^verbatim>\<open>"down"\<close>.
\<close>

theorem one_down_alert_while_down:
  assumes "distinct (map fst (services_to_monitor cfg))"
    and "(n, c) \<in> set (services_to_monitor cfg)"
    and "map_of (recovery_commands cfg) n = Some rc"
    and "\<forall>t\<in>set ticks. \<not> probe_healthy (t n) n c \<and> \<not> recovery_ok (t n)"
  shows "count_alerts n ''down'' (run_ticks cfg ticks st)
           = count_alerts n ''down'' st
             + (if ticks = [] \<or> status_get st n = Down then 0 else 1) \<and>
         count_alerts n ''down'' (run_ticks cfg ticks st) \<le> count_alerts n ''down'' st + 1 \<and>
         (ticks \<noteq> [] \<longrightarrow> status_get (run_ticks cfg ticks st) n = Down)"
proof -
  have "count_alerts n ''down'' (fold (monitor_services cfg) ticks st)
           = count_alerts n ''down'' st
             + (if ticks = [] \<or> status_get st n = Down then 0 else 1) \<and>
        (ticks \<noteq> [] \<longrightarrow> status_get (fold (monitor_services cfg) ticks st) n = Down)"
    using assms(4)
  proof (induction ticks arbitrary: st)
    case Nil
    then show ?case by simp
  next
    case (Cons t ticks)
    from Cons.prems have bad: "\<not> probe_healthy (t n) n c" "\<not> recovery_ok (t n)"
      and rest: "\<forall>t\<in>set ticks. \<not> probe_healthy (t n) n c \<and> \<not> recovery_ok (t n)" by auto
    note one = tick_down_stuck [where t = t and st = st, OF assms(1-3) bad]
    from Cons.IH [OF rest, of "monitor_services cfg t st"] one
    show ?case by (cases "ticks = []") auto
  qed
  then show ?thesis by (auto simp: run_ticks_def)
qed

theorem one_down_alert_while_down_witness:
  "distinct (map fst (services_to_monitor source_config)) \<and>
   (''nginx'', ''/usr/sbin/nginx -t'') \<in> set (services_to_monitor source_config) \<and>
   map_of (recovery_commands source_config) ''nginx'' = Some ''sudo systemctl restart nginx'' \<and>
   \<not> probe_healthy (every_service env_down_stuck ''nginx'') ''nginx'' ''/usr/sbin/nginx -t'' \<and>
   \<not> recovery_ok (every_service env_down_stuck ''nginx'') \<and>
   count_alerts ''nginx'' ''down''
     (run_ticks source_config
        [every_service env_down_stuck, every_service env_down_stuck, every_service env_down_stuck]
        (start source_config)) = 1 \<and>
   status_get
     (run_ticks source_config
        [every_service env_down_stuck, every_service env_down_stuck, every_service env_down_stuck]
        (start source_config)) ''nginx'' = Down"
proof -
  have bad: "\<forall>t\<in>set [every_service env_down_stuck, every_service env_down_stuck,
                      every_service env_down_stuck].
               \<not> probe_healthy (t ''nginx'') ''nginx'' ''/usr/sbin/nginx -t'' \<and>
               \<not> recovery_ok (t ''nginx'')"
    by (simp add: every_service_def)
  have rc: "map_of (recovery_commands source_config) ''nginx''
              = Some ''sudo systemctl restart nginx''" by simp
  have zero: "count_alerts ''nginx'' ''down'' (start source_config) = 0"
    by (simp add: count_alerts_def alerts_of_def)
  from one_down_alert_while_down [OF source_distinct source_nginx rc bad, of "start source_config"]
    zero source_distinct source_nginx
  show ?thesis by (simp add: every_service_def)
qed

theorem repeated_down_alert_counterexample:
  "\<not> probe_healthy (every_service env_down_recovered ''nginx'') ''nginx'' ''/usr/sbin/nginx -t'' \<and>
   count_alerts ''nginx'' ''down''
     (run_ticks source_config [every_service env_down_recovered, every_service env_down_recovered]
        (start source_config)) = 2"
  by (simp add: run_ticks_def source_tick eval_step count_alerts_def alerts_of_def)

subsection \<open>Failures of the incident store\<close>

lemma db_error_irrelevant [simp]:
  "check_service_health (e\<lparr>db_error := x\<rparr>) n c = check_service_health e n c"
  "probe_healthy (e\<lparr>db_error := x\<rparr>) n c = probe_healthy e n c"
  "recovery_ok (e\<lparr>db_error := x\<rparr>) = recovery_ok e"
  by (simp_all add: probe_healthy_def check_service_health_cases recovery_ok_def)

lemma send_slack_alert_posts:
  "posts (send_slack_alert e n t d st) =
     posts st @
     (case post_error e t of
        Some m \<Rightarrow> []
      | None \<Rightarrow> [\<lparr>color = color_map t, title_emoji = emoji_map t,
                   title_text = '' '' @ n @ '': '' @ upper t, text_field = d,
                   time_field = now e\<rparr>])"
  by (simp add: send_slack_alert_def send_slack_alert_body_def Let_def split: option.split)

lemma monitor_one_service_status:
  "service_status (monitor_one cfg e n c st) =
     (if probe_healthy e n c then (service_status st)(n \<mapsto> Up)
      else case map_of (recovery_commands cfg) n of
             None \<Rightarrow> service_status st
           | Some rc \<Rightarrow> (service_status st)(n \<mapsto> (if recovery_ok e then Up else Down)))"
  by (simp add: monitor_one_unfold split: option.split)

lemma monitor_one_core:
  assumes "core st = core st'"
  shows "core (monitor_one cfg e n c st) = core (monitor_one cfg (e\<lparr>db_error := x\<rparr>) n c st')"
proof -
  from assms have eq: "service_status st = service_status st'" "alerts st = alerts st'"
    "posts st = posts st'" "probes st = probes st'" "recoveries st = recoveries st'"
    by (simp_all add: core_def)
  then have sg: "status_get st n = status_get st' n" by (simp add: status_get_def)
  have "posts (monitor_one cfg e n c st) = posts (monitor_one cfg (e\<lparr>db_error := x\<rparr>) n c st')"
    using eq(3) sg by (simp add: monitor_one_unfold send_slack_alert_posts split: option.split)
  moreover have "service_status (monitor_one cfg e n c st)
      = service_status (monitor_one cfg (e\<lparr>db_error := x\<rparr>) n c st')"
    using eq(1) by (simp add: monitor_one_service_status split: option.split)
  moreover have "alerts (monitor_one cfg e n c st)
      = alerts (monitor_one cfg (e\<lparr>db_error := x\<rparr>) n c st')"
    using eq(2) sg by (simp add: monitor_one_alerts split: option.split)
  moreover have "probes (monitor_one cfg e n c st)
      = probes (monitor_one cfg (e\<lparr>db_error := x\<rparr>) n c st')"
    using eq(4) by (simp add: monitor_one_probes)
  moreover have "recoveries (monitor_one cfg e n c st)
      = recoveries (monitor_one cfg (e\<lparr>db_error := x\<rparr>) n c st')"
    using eq(5) sg by (simp add: monitor_one_recoveries split: option.split)
  ultimately show ?thesis by (simp add: core_def)
qed

lemma fold_core:
  "core st = core st' \<Longrightarrow>
   core (fold (\<lambda>(name, check_command). monitor_one cfg (envt name) name check_command) xs st)
     = core (fold (\<lambda>(name, check_command).
                     monitor_one cfg (db_always_ok envt name) name check_command) xs st')"
proof (induction xs arbitrary: st st')
  case Nil
  then show ?case by simp
next
  case (Cons x xs)
  obtain m d where x: "x = (m, d)" by (cases x)
  from Cons.prems
  have "core (monitor_one cfg (envt m) m d st)
          = core (monitor_one cfg (db_always_ok envt m) m d st')"
    unfolding db_always_ok_def by (rule monitor_one_core)
  from Cons.IH [OF this] x show ?case by simp
qed

lemma run_core:
  "core st = core st' \<Longrightarrow>
   core (fold (monitor_services cfg) ticks st)
     = core (fold (monitor_services cfg) (map db_always_ok ticks) st')"
proof (induction ticks arbitrary: st st')
  case Nil
  then show ?case by simp
next
  case (Cons t ticks)
  from Cons.prems
  have "core (monitor_services cfg t st) = core (monitor_services cfg (db_always_ok t) st')"
    unfolding monitor_services_def by (rule fold_core)
  from Cons.IH [OF this] show ?case by simp
qed

subsection \<open>Each service on its own\<close>

lemma lone_fields [simp]:
  "status_get (lone n s) n = s"
  "incidents (lone n s) = []"
  "alerts (lone n s) = []"
  "posts (lone n s) = []"
  "log (lone n s) = []"
  "probes (lone n s) = []"
  "recoveries (lone n s) = []"
  by (simp_all add: lone_def status_get_def)

lemma send_slack_alert_log:
  "log (send_slack_alert e n t d st) =
     log st @
     (case post_error e t of
        None \<Rightarrow> []
      | Some m \<Rightarrow> [Log_Error_Sending_Slack_Alert m])"
  by (simp add: send_slack_alert_def send_slack_alert_body_def Let_def split: option.split)

lemma log_incident_log:
  "log (log_incident e n t d st) =
     log st @
     (case db_error e of
        None \<Rightarrow> []
      | Some m \<Rightarrow> [Log_Failed_To_Log_Incident m])"
  by (simp add: log_incident_def log_incident_body_def split: option.split)

lemma attempt_recovery_log:
  "log (snd (attempt_recovery e n c st)) =
     log st @
     [Log_Attempting_Recovery n,
      case recovery_run e of
        Inl (TimeoutExpired m) \<Rightarrow> Log_Recovery_Timeout n
      | Inl (Exception m) \<Rightarrow> Log_Recovery_Error n m
      | Inr r \<Rightarrow> if returncode r = 0 then Log_Recovery_Successful n else Log_Recovery_Failed n]"
  by (simp add: attempt_recovery_def attempt_recovery_body_def Let_def
           split: sum.split exn.split)

lemma own_alerts:
  "alerts (monitor_one cfg e n c st) = alerts st @ alerts (own_step cfg e n c (status_get st n))"
  by (simp add: own_step_def monitor_one_alerts split: option.split)

lemma own_recoveries:
  "recoveries (monitor_one cfg e n c st)
     = recoveries st @ recoveries (own_step cfg e n c (status_get st n))"
  by (simp add: own_step_def monitor_one_recoveries split: option.split)

lemma own_rows:
  "rows (monitor_one cfg e n c st) = rows st @ rows (own_step cfg e n c (status_get st n))"
  by (simp add: own_step_def rows_def row_data_def monitor_one_incidents)

lemma own_posts:
  "posts (monitor_one cfg e n c st) = posts st @ posts (own_step cfg e n c (status_get st n))"
  by (simp add: own_step_def monitor_one_unfold send_slack_alert_posts split: option.split)

lemma own_log:
  "log (monitor_one cfg e n c st) = log st @ log (own_step cfg e n c (status_get st n))"
  by (simp add: own_step_def monitor_one_unfold send_slack_alert_log log_incident_log
        attempt_recovery_log split: option.split)

lemma own_status:
  "status_get (monitor_one cfg e n c st) n
     = status_get (own_step cfg e n c (status_get st n)) n"
  by (simp add: own_step_def monitor_one_status split: option.split)

lemma fold_own:
  assumes step: "\<And>e n c st. f (monitor_one cfg e n c st)
                   = f st @ f (own_step cfg e n c (status_get st n))"
  shows "distinct (map fst xs) \<Longrightarrow>
         f (fold (\<lambda>(name, check_command). monitor_one cfg (envt name) name check_command) xs st)
           = f st @ concat (map (\<lambda>(n, c). f (own_step cfg (envt n) n c (status_get st n))) xs)"
proof (induction xs arbitrary: st)
  case Nil
  then show ?case by simp
next
  case (Cons x xs)
  obtain m d where x: "x = (m, d)" by (cases x)
  let ?st1 = "monitor_one cfg (envt m) m d st"
  from Cons.prems x have dist: "distinct (map fst xs)" and fresh: "m \<notin> fst ` set xs" by auto
  have same: "map (\<lambda>(n, c). f (own_step cfg (envt n) n c (status_get ?st1 n))) xs
            = map (\<lambda>(n, c). f (own_step cfg (envt n) n c (status_get st n))) xs"
  proof (rule map_cong [OF refl])
    fix y assume y: "y \<in> set xs"
    obtain n c where yc: "y = (n, c)" by (cases y)
    with y fresh have "n \<noteq> m" by force
    then have "status_get ?st1 n = status_get st n" by (simp add: monitor_one_status)
    then show "(case y of (n, c) \<Rightarrow> f (own_step cfg (envt n) n c (status_get ?st1 n)))
             = (case y of (n, c) \<Rightarrow> f (own_step cfg (envt n) n c (status_get st n)))"
      using yc by simp
  qed
  from Cons.IH [OF dist, of ?st1] same step [of "envt m" m d st] x
  show ?case by simp
qed

lemma tick_own:
  assumes step: "\<And>e n c st. f (monitor_one cfg e n c st)
                   = f st @ f (own_step cfg e n c (status_get st n))"
    and dist: "distinct (map fst (services_to_monitor cfg))"
  shows "f (monitor_services cfg envt st) = f st @ concat (map f (own_steps cfg envt st))"
proof -
  have "map f (own_steps cfg envt st)
      = map (\<lambda>(n, c). f (own_step cfg (envt n) n c (status_get st n))) (services_to_monitor cfg)"
    by (simp add: own_steps_def split_beta)
  then show ?thesis
    unfolding monitor_services_def using fold_own [of f cfg, OF step dist] by simp
qed


lemma fold_status_others:
  "m \<notin> fst ` set xs \<Longrightarrow>
   service_status
     (fold (\<lambda>(name, check_command). monitor_one cfg (envt name) name check_command) xs st) m
     = service_status st m"
proof (induction xs arbitrary: st)
  case Nil
  then show ?case by simp
next
  case (Cons x xs)
  obtain n c where x: "x = (n, c)" by (cases x)
  from Cons.prems x have "n \<noteq> m" and rest: "m \<notin> fst ` set xs" by auto
  then show ?case using Cons.IH [OF rest] x
    by (simp add: monitor_one_service_status split: option.split)
qed

lemma tick_own_status:
  assumes "distinct (map fst (services_to_monitor cfg))"
    and "(n, c) \<in> set (services_to_monitor cfg)"
  shows "status_get (monitor_services cfg envt st) n
           = status_get (own_step cfg (envt n) n c (status_get st n)) n"
  using tick_on_member(1) [OF assms, of envt st] by (simp add: own_status)

text \<open>
  Claim C9. Within one tick every failure is confined to the service it happens to.
  Whatever the environment answers (failed probes, failed or timed out recoveries,
  webhook errors, database errors), the tick probes every configured service, in
  order, and everything else it does is, service by service, what the step of that
  service does alone, on an empty world that holds only its own status and with only
  its own environment: the alert calls, the delivered payloads, the incident rows (up
  to the key), the recovery runs, the log lines and the status of each service. The
  status entry of a name that is not monitored is unchanged. So no failure of one
  service can skip, remove or alter what the tick does for another.
\<close>

theorem tick_isolation:
  "probes (monitor_services cfg envt st) = probes st @ services_to_monitor cfg \<and>
   (m \<notin> fst ` set (services_to_monitor cfg) \<longrightarrow>
      service_status (monitor_services cfg envt st) m = service_status st m) \<and>
   (distinct (map fst (services_to_monitor cfg)) \<longrightarrow>
      alerts (monitor_services cfg envt st)
        = alerts st @ concat (map alerts (own_steps cfg envt st)) \<and>
      posts (monitor_services cfg envt st)
        = posts st @ concat (map posts (own_steps cfg envt st)) \<and>
      rows (monitor_services cfg envt st)
        = rows st @ concat (map rows (own_steps cfg envt st)) \<and>
      recoveries (monitor_services cfg envt st)
        = recoveries st @ concat (map recoveries (own_steps cfg envt st)) \<and>
      log (monitor_services cfg envt st)
        = log st @ concat (map log (own_steps cfg envt st)) \<and>
      ((n, c) \<in> set (services_to_monitor cfg) \<longrightarrow>
         status_get (monitor_services cfg envt st) n
           = status_get (own_step cfg (envt n) n c (status_get st n)) n \<and>
         view n (monitor_services cfg envt st) = view n (monitor_one cfg (envt n) n c st)))"
proof -
  have "m \<notin> fst ` set (services_to_monitor cfg) \<longrightarrow>
      service_status (monitor_services cfg envt st) m = service_status st m"
    unfolding monitor_services_def by (simp add: fold_status_others)
  then show ?thesis
    by (simp add: monitor_services_probes tick_own [of alerts, OF own_alerts]
          tick_own [of posts, OF own_posts] tick_own [of rows, OF own_rows]
          tick_own [of recoveries, OF own_recoveries] tick_own [of log, OF own_log]
          tick_own_status view_tick_member)
qed

lemma sample_posts [simp]:
  "post_error env_all_fail t = Some ''connection timed out''"
  "post_error env_down_recovered t = None"
  "post_error env_up t = None"
  by (simp_all add: env_all_fail_def env_down_recovered_def env_up_def always_post_error_def
        no_post_error_def)

lemma start_posts [simp]: "posts (start cfg) = []" "log (start cfg) = []"
  by (simp_all add: start_def main_init_fields initial_state_def)

lemma rows_names: "map service_name (rows st) = map service_name (incidents st)"
  by (simp add: rows_def row_data_def)

theorem tick_isolation_witness:
  "distinct (map fst (services_to_monitor source_config)) \<and>
   (''postgresql'', ''pg_isready -h localhost'') \<in> set (services_to_monitor source_config) \<and>
   ''web'' \<notin> fst ` set (services_to_monitor source_config) \<and>
   probes (monitor_services source_config tick_nginx_breaks (start source_config))
     = services_to_monitor source_config \<and>
   service_status (monitor_services source_config tick_nginx_breaks (start source_config)) ''web''
     = None \<and>
   map text_field (posts (monitor_services source_config tick_nginx_breaks (start source_config)))
     = [''Error: connection refused'', ''Auto-recovery successful''] \<and>
   map service_name
     (incidents (monitor_services source_config tick_nginx_breaks (start source_config)))
     = [''postgresql''] \<and>
   status_get (monitor_services source_config tick_nginx_breaks (start source_config))
     ''postgresql'' = Up"
proof -
  let ?S = "monitor_services source_config tick_nginx_breaks (start source_config)"
  let ?own = "own_steps source_config tick_nginx_breaks (start source_config)"
  have pg: "(''postgresql'', ''pg_isready -h localhost'') \<in> set (services_to_monitor source_config)"
    by (simp add: source_config_def SERVICES_TO_MONITOR_def)
  have web: "''web'' \<notin> fst ` set (services_to_monitor source_config)"
    by (simp add: source_config_def SERVICES_TO_MONITOR_def)
  have own: "?own =
      [own_step source_config env_all_fail ''nginx'' ''/usr/sbin/nginx -t'' Unknown,
       own_step source_config env_down_recovered ''postgresql'' ''pg_isready -h localhost''
         Unknown,
       own_step source_config env_up ''redis'' ''redis-cli ping'' Unknown,
       own_step source_config env_up ''application'' ''curl -s http://localhost:8000/health''
         Unknown]"
  proof -
    have "services_to_monitor source_config = SERVICES_TO_MONITOR"
      by (simp add: source_config_def)
    then show ?thesis
      by (simp add: own_steps_def SERVICES_TO_MONITOR_def tick_nginx_breaks_def)
  qed
  have p: "map text_field (concat (map posts ?own))
             = [''Error: connection refused'', ''Auto-recovery successful'']"
    unfolding own
    by (simp add: own_step_def monitor_one_unfold send_slack_alert_posts)
  have r: "map service_name (concat (map rows ?own)) = [''postgresql'']"
    unfolding own
    by (simp add: own_step_def rows_def row_data_def monitor_one_incidents)
  have s: "status_get (own_step source_config (tick_nginx_breaks ''postgresql'') ''postgresql''
                ''pg_isready -h localhost'' (status_get (start source_config) ''postgresql''))
             ''postgresql'' = Up"
    by (simp add: own_step_def monitor_one_status tick_nginx_breaks_def)
  note inst = tick_isolation [where cfg = source_config and envt = tick_nginx_breaks
      and st = "start source_config" and m = "''web''" and n = "''postgresql''"
      and c = "''pg_isready -h localhost''"]
  from inst have a: "probes ?S = services_to_monitor source_config" by simp
  from inst web have b: "service_status ?S ''web'' = service_status (start source_config) ''web''"
    by blast
  have b0: "service_status (start source_config) ''web'' = None" by simp
  from inst source_distinct have c1: "posts ?S = posts (start source_config) @ concat (map posts ?own)"
    and c2: "rows ?S = rows (start source_config) @ concat (map rows ?own)" by blast+
  from inst source_distinct pg s have d: "status_get ?S ''postgresql'' = Up" by simp
  have e: "map text_field (posts ?S)
             = [''Error: connection refused'', ''Auto-recovery successful'']"
    unfolding c1 using p by simp
  have "map service_name (rows ?S) = [''postgresql'']"
    unfolding c2 using r by (simp add: rows_def)
  then have f: "map service_name (incidents ?S) = [''postgresql'']"
    by (simp add: rows_names)
  from a b b0 d e f source_distinct pg web show ?thesis by simp
qed

lemma monitor_one_failed_write:
  "db_error e = Some m \<Longrightarrow> \<not> probe_healthy e n c \<Longrightarrow> status_get st n \<noteq> Down \<Longrightarrow>
   incidents (monitor_one cfg e n c st) = incidents st \<and>
   Log_Failed_To_Log_Incident m \<in> set (log (monitor_one cfg e n c st))"
  by (simp add: monitor_one_incidents)
     (simp add: monitor_one_unfold send_slack_alert_log log_incident_log attempt_recovery_log
        split: option.split)

text \<open>
  Claim C8. A failing write to the incident store raises inside \<^verbatim>\<open>log_incident\<close> only:
  the function catches it, logs it and returns with the rest of the state unchanged, so
  the step that met the failure goes on with no new row and with the failure in the log.
  Hence over any run of ticks, whichever writes fail, the statuses, the alerts, the
  delivered payloads, the probes and the recovery runs are those of the same run with
  no failing write: no tick is cut short and the later ticks run.
\<close>

theorem store_failure_is_soft:
  "core (run_ticks cfg ticks st) = core (run_ticks cfg (map db_always_ok ticks) st) \<and>
   (db_error e = Some m \<longrightarrow>
      log_incident_body e n t d st = Inl (Exception m) \<and>
      log_incident e n t d st = logger (Log_Failed_To_Log_Incident m) st \<and>
      (\<not> probe_healthy e n c \<longrightarrow> status_get st n \<noteq> Down \<longrightarrow>
         incidents (monitor_one cfg e n c st) = incidents st \<and>
         Log_Failed_To_Log_Incident m \<in> set (log (monitor_one cfg e n c st))))"
proof -
  have "core (run_ticks cfg ticks st) = core (run_ticks cfg (map db_always_ok ticks) st)"
    unfolding run_ticks_def by (rule run_core [OF refl])
  moreover have "db_error e = Some m \<longrightarrow> \<not> probe_healthy e n c \<longrightarrow> status_get st n \<noteq> Down \<longrightarrow>
         incidents (monitor_one cfg e n c st) = incidents st \<and>
         Log_Failed_To_Log_Incident m \<in> set (log (monitor_one cfg e n c st))"
    using monitor_one_failed_write [of e m n c st cfg] by blast
  ultimately show ?thesis by (simp add: log_incident_def log_incident_body_def)
qed

theorem store_failure_is_soft_witness:
  "db_error env_down_db_fails = Some ''database is locked'' \<and>
   \<not> probe_healthy env_down_db_fails ''nginx'' ''/usr/sbin/nginx -t'' \<and>
   status_get (start source_config) ''nginx'' \<noteq> Down \<and>
   log_incident_body env_down_db_fails ''nginx'' ''service_failure'' ''connection refused''
     (start source_config) = Inl (Exception ''database is locked'') \<and>
   log_incident env_down_db_fails ''nginx'' ''service_failure'' ''connection refused''
     (start source_config)
     = logger (Log_Failed_To_Log_Incident ''database is locked'') (start source_config) \<and>
   incidents (monitor_one source_config env_down_db_fails ''nginx'' ''/usr/sbin/nginx -t''
                (start source_config)) = [] \<and>
   Log_Failed_To_Log_Incident ''database is locked''
     \<in> set (log (monitor_one source_config env_down_db_fails ''nginx'' ''/usr/sbin/nginx -t''
                   (start source_config))) \<and>
   core (run_ticks source_config [every_service env_down_db_fails, every_service env_up]
           (start source_config))
     = core (run_ticks source_config
               (map db_always_ok [every_service env_down_db_fails, every_service env_up])
               (start source_config))"
  using store_failure_is_soft [where cfg = source_config
      and ticks = "[every_service env_down_db_fails, every_service env_up]"
      and st = "start source_config" and e = env_down_db_fails
      and m = "''database is locked''" and n = "''nginx''" and t = "''service_failure''"
      and d = "''connection refused''" and c = "''/usr/sbin/nginx -t''"]
  by simp

end
